theory Spec2Isabelle
  imports Main "HOL-Library.Sublist"
begin

section \<open>Strings of the Python standard library\<close>

text \<open>
  The generator script works on Python \<open>str\<close> values. Every constant of the script is
  ASCII, and component names are ASCII identifiers, so a string is modelled as a list of
  \<^typ>\<open>char\<close>. The case mappings below are those of \<open>str.upper\<close> and \<open>str.lower\<close> on
  ASCII letters; theorems that depend on them assume an ASCII name.
\<close>

definition ascii_lowercase :: string where
  "ascii_lowercase = ''abcdefghijklmnopqrstuvwxyz''"

definition ascii_uppercase :: string where
  "ascii_uppercase = ''ABCDEFGHIJKLMNOPQRSTUVWXYZ''"

definition digits :: string where
  "digits = ''0123456789''"

definition is_ascii :: "char \<Rightarrow> bool" where
  "is_ascii c = ((of_char c :: nat) < 128)"

definition to_upper :: "char \<Rightarrow> char" where
  "to_upper c = (case map_of (zip ascii_lowercase ascii_uppercase) c of
                   Some u \<Rightarrow> u | None \<Rightarrow> c)"

definition to_lower :: "char \<Rightarrow> char" where
  "to_lower c = (case map_of (zip ascii_uppercase ascii_lowercase) c of
                   Some l \<Rightarrow> l | None \<Rightarrow> c)"

text \<open>
  \<open>str.capitalize()\<close>: the first character is upper-cased and \<^emph>\<open>all the others are
  lower-cased\<close>.
\<close>

fun capitalize :: "string \<Rightarrow> string" where
  "capitalize [] = []"
| "capitalize (c # cs) = to_upper c # map to_lower cs"

text \<open>
  \<open>os.path.join\<close> for two components (POSIX): an absolute second component replaces the
  first; otherwise the two are joined by exactly one separator.
\<close>

definition os_path_join :: "string \<Rightarrow> string \<Rightarrow> string" where
  "os_path_join a b =
     (if b \<noteq> [] \<and> hd b = CHR ''/'' then b
      else if a = [] \<or> last a = CHR ''/'' then a @ b
      else a @ ''/'' @ b)"

section \<open>string.Template\<close>

datatype error = KeyError string | ValueError | OSError

text \<open>
  The pattern of \<open>string.Template\<close>: after the delimiter \<open>$\<close> comes a second \<open>$\<close>
  (escape), an identifier \<open>[_a-zA-Z][_a-zA-Z0-9]*\<close> (named), an identifier in braces
  (braced), or anything else (invalid). \<open>re.sub\<close> copies the text between matches.
\<close>

datatype token = Lit string | Escaped | Named string | Braced string | Invalid

definition id_start :: "char \<Rightarrow> bool" where
  "id_start c = (c \<in> set (''_'' @ ascii_lowercase @ ascii_uppercase))"

definition id_char :: "char \<Rightarrow> bool" where
  "id_char c = (id_start c \<or> c \<in> set digits)"

definition not_delim :: "char \<Rightarrow> bool" where
  "not_delim c = (c \<noteq> CHR ''$'')"

function tokenize :: "string \<Rightarrow> token list" where
  "tokenize [] = []"
| "tokenize (c # cs) =
     (if c \<noteq> CHR ''$'' then
        Lit (c # takeWhile not_delim cs) # tokenize (dropWhile not_delim cs)
      else (case cs of
              [] \<Rightarrow> [Invalid]
            | d # ds \<Rightarrow>
                if d = CHR ''$'' then Escaped # tokenize ds
                else if id_start d then
                  Named (takeWhile id_char cs) # tokenize (dropWhile id_char cs)
                else if d = CHR ''{'' \<and> ds \<noteq> [] \<and> id_start (hd ds)
                        \<and> dropWhile id_char ds \<noteq> []
                        \<and> hd (dropWhile id_char ds) = CHR ''}'' then
                  Braced (takeWhile id_char ds) # tokenize (tl (dropWhile id_char ds))
                else Invalid # tokenize cs))"
  by pat_completeness auto
termination
proof (relation "measure length")
  show "wf (measure length)" by simp
next
  fix c :: char and cs :: string
  show "(dropWhile not_delim cs, c # cs) \<in> measure length"
    by (simp add: le_imp_less_Suc length_dropWhile_le)
next
  fix c d :: char and cs ds :: string
  assume "cs = d # ds"
  then show "(ds, c # cs) \<in> measure length" by simp
next
  fix c d :: char and cs ds :: string
  show "(dropWhile id_char cs, c # cs) \<in> measure length"
    by (simp add: le_imp_less_Suc length_dropWhile_le)
next
  fix c d :: char and cs ds :: string
  assume "cs = d # ds"
  have "length (dropWhile id_char ds) \<le> length ds"
    by (rule length_dropWhile_le)
  then have "length (tl (dropWhile id_char ds)) \<le> length ds"
    by simp
  with \<open>cs = d # ds\<close> show "(tl (dropWhile id_char ds), c # cs) \<in> measure length"
    by simp
next
  fix c d :: char and cs ds :: string
  show "(cs, c # cs) \<in> measure length" by simp
qed

text \<open>
  \<open>Template.substitute(mapping)\<close>: the matches are converted from left to right; a name
  that the mapping does not bind raises \<open>KeyError\<close>, an ill-formed delimiter raises
  \<open>ValueError\<close>. Substituted values are not scanned again.
\<close>

fun convert :: "(string \<rightharpoonup> string) \<Rightarrow> token \<Rightarrow> error + string" where
  "convert m (Lit s) = Inr s"
| "convert m Escaped = Inr ''$''"
| "convert m (Named k) = (case m k of None \<Rightarrow> Inl (KeyError k) | Some v \<Rightarrow> Inr v)"
| "convert m (Braced k) = (case m k of None \<Rightarrow> Inl (KeyError k) | Some v \<Rightarrow> Inr v)"
| "convert m Invalid = Inl ValueError"

fun sub :: "(string \<rightharpoonup> string) \<Rightarrow> token list \<Rightarrow> error + string" where
  "sub m [] = Inr []"
| "sub m (t # ts) =
     (case convert m t of
        Inl e \<Rightarrow> Inl e
      | Inr s \<Rightarrow> (case sub m ts of Inl e \<Rightarrow> Inl e | Inr r \<Rightarrow> Inr (s @ r)))"

definition substitute :: "string \<Rightarrow> (string \<rightharpoonup> string) \<Rightarrow> error + string" where
  "substitute template m = sub m (tokenize template)"

section \<open>The configuration of the script\<close>

definition COMPONENTS :: "string list" where
  "COMPONENTS =
     [''alert'', ''badge'', ''card'', ''checkbox'', ''divider'', ''input'', ''link'',
      ''loading'', ''progress'', ''radio'', ''select'', ''textarea'', ''toggle'']"

definition TARGET_DIR :: string where
  "TARGET_DIR =
     foldl os_path_join ''examples''
       [''deepyr_example'', ''lib'', ''pages'', ''component_routes'']"

definition newline :: string where
  "newline = [CHR 0x0A]"

definition unlines :: "string list \<Rightarrow> string" where
  "unlines ls = concat (map (\<lambda>l. l @ newline) ls)"

text \<open>The triple-quoted template: fifteen lines, each ended by a line feed.\<close>

definition DART_TEMPLATE :: string where
  "DART_TEMPLATE = unlines
     [''import 'package:jaspr/jaspr.dart';'',
      ''import '../preview/$preview_file_name';'',
      [],
      ''/// The page that showcases the `$component_name_pascal_case` component.'',
      ''///'',
      ''/// This is a simple wrapper component that renders the `${component_name_pascal_case}Preview`,'',
      ''/// which contains all the interactive examples and code snippets.'',
      ''class ${component_name_pascal_case}Page extends StatelessComponent {'',
      ''  const ${component_name_pascal_case}Page({super.key});'',
      [],
      ''  @override'',
      ''  Iterable<Component> build(BuildContext context) sync* {'',
      ''    yield ${component_name_pascal_case}Preview();'',
      ''  }'',
      ''}'']"

section \<open>The file system and the console\<close>

datatype node = Dir | File string

datatype call = Makedirs string | OpenWrite string string

text \<open>
  The world the script acts on: the file system (a map from paths to nodes), what has
  been printed, and the file-system calls made so far, in order.
\<close>

record world =
  fs :: "string \<rightharpoonup> node"
  stdout :: string
  calls :: "call list"

text \<open>
  What the file system answers is not decided by the script. \<open>makedirs_ok\<close> says whether
  \<open>os.makedirs\<close> succeeds; \<open>write_result i\<close> is the fate of the \<open>i\<close>-th file of the loop:
  written, refused by \<open>open\<close> (nothing changes), or failed while writing (the file was
  created or truncated by \<open>open(path, "w")\<close> and holds only a prefix of the content).
\<close>

datatype write_result = Written | OpenDenied | WriteFailed nat

record env =
  makedirs_ok :: bool
  write_result :: "nat \<Rightarrow> write_result"

definition print :: "string \<Rightarrow> world \<Rightarrow> world" where
  "print s w = w\<lparr>stdout := stdout w @ s @ newline\<rparr>"

definition os_path_exists :: "world \<Rightarrow> string \<Rightarrow> bool" where
  "os_path_exists w p = (fs w p \<noteq> None)"

text \<open>The path itself and every prefix of it that ends before a separator.\<close>

definition dir_prefixes :: "string \<Rightarrow> string list" where
  "dir_prefixes p = [take i p. i \<leftarrow> [1..<length p], p ! i = CHR ''/''] @ [p]"

definition mkdir_missing :: "string \<Rightarrow> (string \<rightharpoonup> node) \<Rightarrow> (string \<rightharpoonup> node)" where
  "mkdir_missing d f = (if f d = None then f(d \<mapsto> Dir) else f)"

definition os_makedirs :: "bool \<Rightarrow> string \<Rightarrow> world \<Rightarrow> (error + unit) \<times> world" where
  "os_makedirs ok p w =
     (let w1 = w\<lparr>calls := calls w @ [Makedirs p]\<rparr>
      in if ok then (Inr (), w1\<lparr>fs := fold mkdir_missing (dir_prefixes p) (fs w1)\<rparr>)
         else (Inl OSError, w1))"

text \<open>
  \<open>with open(file_path, "w") as f: f.write(content)\<close>. A path with a NUL character is
  refused by \<open>open\<close> with \<open>ValueError\<close> before the file system is asked.
\<close>

definition open_write ::
  "write_result \<Rightarrow> string \<Rightarrow> string \<Rightarrow> world \<Rightarrow> (error + unit) \<times> world" where
  "open_write r path content w =
     (if CHR 0x00 \<in> set path then (Inl ValueError, w)
      else
        let w1 = w\<lparr>calls := calls w @ [OpenWrite path content]\<rparr>
        in case r of
             Written \<Rightarrow> (Inr (), w1\<lparr>fs := (fs w1)(path \<mapsto> File content)\<rparr>)
           | OpenDenied \<Rightarrow> (Inl OSError, w1)
           | WriteFailed n \<Rightarrow>
               (Inl OSError, w1\<lparr>fs := (fs w1)(path \<mapsto> File (take n content))\<rparr>))"

section \<open>generate_files\<close>

text \<open>The values the loop body derives from \<open>name\<close>, under the names of its variables.\<close>

definition extension :: string where
  "extension = ''.dart''"

definition pascal_case_name :: "string \<Rightarrow> string" where
  "pascal_case_name name = capitalize name"

definition file_name :: "string \<Rightarrow> string" where
  "file_name name = name @ ''_page.dart''"

definition preview_file_name :: "string \<Rightarrow> string" where
  "preview_file_name name = name @ ''_preview.dart''"

definition file_path :: "string \<Rightarrow> string" where
  "file_path name = os_path_join TARGET_DIR (file_name name)"

definition substitutions :: "string \<Rightarrow> (string \<rightharpoonup> string)" where
  "substitutions name =
     map_of [(''file_name'', file_name name),
             (''preview_file_name'', preview_file_name name),
             (''component_name_pascal_case'', pascal_case_name name)]"

definition render :: "string \<Rightarrow> error + string" where
  "render name = substitute DART_TEMPLATE (substitutions name)"

text \<open>The \<open>for name in COMPONENTS\<close> loop; \<open>i\<close> counts the iterations.\<close>

fun write_pages :: "env \<Rightarrow> nat \<Rightarrow> string list \<Rightarrow> world \<Rightarrow> (error + unit) \<times> world" where
  "write_pages e i [] w = (Inr (), w)"
| "write_pages e i (name # rest) w =
     (case render name of
        Inl err \<Rightarrow> (Inl err, w)
      | Inr content \<Rightarrow>
          (case open_write (write_result e i) (file_path name) content w of
             (Inl err, w') \<Rightarrow> (Inl err, w')
           | (Inr u, w') \<Rightarrow>
               write_pages e (Suc i) rest
                 (print (''  -> Successfully created '' @ file_path name) w')))"

definition backslash_n :: string where
  "backslash_n = [CHR 0x5C, CHR ''n'']"

definition starting_message :: string where
  "starting_message = backslash_n @ ''Starting file generation...''"

definition complete_message :: string where
  "complete_message = backslash_n @ ''File generation complete!'' @ backslash_n"

definition ensure_target_dir :: "env \<Rightarrow> world \<Rightarrow> (error + unit) \<times> world" where
  "ensure_target_dir e w =
     (if \<not> os_path_exists w TARGET_DIR then
        (case os_makedirs (makedirs_ok e) TARGET_DIR w of
           (Inl err, w') \<Rightarrow> (Inl err, w')
         | (Inr u, w') \<Rightarrow> (Inr (), print (''Created directory: '' @ TARGET_DIR) w'))
      else (Inr (), w))"

text \<open>
  \<open>generate_files()\<close>, with the module-level list of names as an argument. An exception
  ends the run at once; the world is returned as it was when the exception was raised.
\<close>

definition generate_files :: "env \<Rightarrow> string list \<Rightarrow> world \<Rightarrow> (error + unit) \<times> world" where
  "generate_files e names w =
     (case ensure_target_dir e w of
        (Inl err, w1) \<Rightarrow> (Inl err, w1)
      | (Inr u, w1) \<Rightarrow>
          (case write_pages e 0 names (print starting_message w1) of
             (Inl err, w2) \<Rightarrow> (Inl err, w2)
           | (Inr u, w2) \<Rightarrow> (Inr (), print complete_message w2)))"

definition main :: "env \<Rightarrow> world \<Rightarrow> (error + unit) \<times> world" where
  "main e w = generate_files e COMPONENTS w"

section \<open>Auxiliary definitions for the statements\<close>

text \<open>The literal pieces of \<open>DART_TEMPLATE\<close> between its placeholders.\<close>

definition lit0 :: string where
  "lit0 = ''import 'package:jaspr/jaspr.dart';'' @ newline @ ''import '../preview/''"

definition lit1 :: string where
  "lit1 = [CHR 0x27] @ '';'' @ newline @ newline @ ''/// The page that showcases the `''"

definition lit2 :: string where
  "lit2 = ''` component.'' @ newline @ ''///'' @ newline
          @ ''/// This is a simple wrapper component that renders the `''"

definition lit3 :: string where
  "lit3 = ''Preview`,'' @ newline
          @ ''/// which contains all the interactive examples and code snippets.'' @ newline
          @ ''class ''"

definition lit4 :: string where
  "lit4 = ''Page extends StatelessComponent {'' @ newline @ ''  const ''"

definition lit5 :: string where
  "lit5 = ''Page({super.key});'' @ newline @ newline @ ''  @override'' @ newline
          @ ''  Iterable<Component> build(BuildContext context) sync* {'' @ newline
          @ ''    yield ''"

definition lit6 :: string where
  "lit6 = ''Preview();'' @ newline @ ''  }'' @ newline @ ''}'' @ newline"

text \<open>The page for a preview file name \<open>p\<close> and a class-name stem \<open>c\<close>.\<close>

definition page :: "string \<Rightarrow> string \<Rightarrow> string" where
  "page p c = lit0 @ p @ lit1 @ c @ lit2 @ c @ lit3 @ c @ lit4 @ c @ lit5 @ c @ lit6"

definition content :: "string \<Rightarrow> string" where
  "content name = page (preview_file_name name) (pascal_case_name name)"




text \<open>What a token stands for once every name is bound.\<close>

fun expand :: "(string \<rightharpoonup> string) \<Rightarrow> token \<Rightarrow> string" where
  "expand m (Lit s) = s"
| "expand m Escaped = ''$''"
| "expand m (Named k) = (case m k of Some v \<Rightarrow> v | None \<Rightarrow> [])"
| "expand m (Braced k) = (case m k of Some v \<Rightarrow> v | None \<Rightarrow> [])"
| "expand m Invalid = []"







text \<open>
  Names made of ASCII characters other than NUL: the names on which the case mappings
  above are those of Python, and whose paths \<open>open\<close> accepts.
\<close>

definition plain_name :: "string \<Rightarrow> bool" where
  "plain_name n = list_all (\<lambda>c. is_ascii c \<and> c \<noteq> CHR 0x00) n"

text \<open>
  What an attempt to open and write the file leaves behind, by the answer of the file
  system; then the effect of one successful iteration of the loop on the world, and of
  the iteration in which the write fails.
\<close>

definition write_effect :: "write_result \<Rightarrow> string \<Rightarrow> string \<Rightarrow> world \<Rightarrow> world" where
  "write_effect r path s w =
     (let w1 = w\<lparr>calls := calls w @ [OpenWrite path s]\<rparr>
      in case r of
           Written \<Rightarrow> w1\<lparr>fs := (fs w1)(path \<mapsto> File s)\<rparr>
         | OpenDenied \<Rightarrow> w1
         | WriteFailed n \<Rightarrow> w1\<lparr>fs := (fs w1)(path \<mapsto> File (take n s))\<rparr>)"

definition created_line :: "string \<Rightarrow> string" where
  "created_line name = ''  -> Successfully created '' @ file_path name @ newline"

definition page_written :: "string \<Rightarrow> world \<Rightarrow> world" where
  "page_written name w =
     print (''  -> Successfully created '' @ file_path name)
       (write_effect Written (file_path name) (content name) w)"

definition page_failed :: "write_result \<Rightarrow> string \<Rightarrow> world \<Rightarrow> world" where
  "page_failed r name w = write_effect r (file_path name) (content name) w"

text \<open>The world once the target directory is there.\<close>

definition dir_ready :: "env \<Rightarrow> world \<Rightarrow> world" where
  "dir_ready e w = snd (ensure_target_dir e w)"

definition is_makedirs :: "call \<Rightarrow> bool" where
  "is_makedirs c = (case c of Makedirs d \<Rightarrow> True | OpenWrite p s \<Rightarrow> False)"

text \<open>\<open>s.split("\n")\<close>: the lines of a text.\<close>

fun lines_of :: "string \<Rightarrow> string list" where
  "lines_of [] = [[]]"
| "lines_of (c # cs) =
     (if c = CHR 0x0A then [] # lines_of cs
      else (case lines_of cs of l # ls \<Rightarrow> (c # l) # ls | [] \<Rightarrow> [[c]]))"

text \<open>
  Concrete environments and a concrete world: a file system that grants everything, one
  that refuses to create the directory, one that fails the \<open>k\<close>-th write, and the empty
  world.
\<close>

definition all_ok :: env where
  "all_ok = \<lparr>makedirs_ok = True, write_result = (\<lambda>i. Written)\<rparr>"

definition no_mkdir :: env where
  "no_mkdir = \<lparr>makedirs_ok = False, write_result = (\<lambda>i. Written)\<rparr>"

definition fails_at :: "nat \<Rightarrow> write_result \<Rightarrow> env" where
  "fails_at k r = \<lparr>makedirs_ok = True, write_result = (\<lambda>i. if i = k then r else Written)\<rparr>"

definition empty_world :: world where
  "empty_world = \<lparr>fs = Map.empty, stdout = [], calls = []\<rparr>"

section \<open>Facts about the template\<close>

lemma tokenize_DART_TEMPLATE:
  "tokenize DART_TEMPLATE =
     [Lit lit0, Named ''preview_file_name'',
      Lit lit1, Named ''component_name_pascal_case'',
      Lit lit2, Braced ''component_name_pascal_case'',
      Lit lit3, Braced ''component_name_pascal_case'',
      Lit lit4, Braced ''component_name_pascal_case'',
      Lit lit5, Braced ''component_name_pascal_case'',
      Lit lit6]"
  by code_simp



lemma substitute_DART_TEMPLATE:
  assumes "m ''preview_file_name'' = Some p" and "m ''component_name_pascal_case'' = Some c"
  shows "substitute DART_TEMPLATE m = Inr (page p c)"
  using assms by (simp add: substitute_def tokenize_DART_TEMPLATE page_def)

lemma render_eq: "render name = Inr (content name)"
  unfolding render_def content_def
  by (rule substitute_DART_TEMPLATE) (simp_all add: substitutions_def)

lemma TARGET_DIR_eq: "TARGET_DIR = ''examples/deepyr_example/lib/pages/component_routes''"
  by code_simp

section \<open>The values derived from a name\<close>





text \<open>
  Claim C4. For every name, the generated file name is the name followed by \<open>_page\<close>
  and the extension, and the preview file name is the name followed by \<open>_preview\<close> and
  the same extension. These are the values bound in the substitution set, the file is
  written at the first one joined to the target directory, and the rendered page refers
  to the second.
\<close>

theorem derived_file_names:
  "file_name name = name @ ''_page'' @ extension
   \<and> preview_file_name name = name @ ''_preview'' @ extension
   \<and> file_path name = os_path_join TARGET_DIR (name @ ''_page'' @ extension)
   \<and> substitutions name ''file_name'' = Some (name @ ''_page'' @ extension)
   \<and> substitutions name ''preview_file_name'' = Some (name @ ''_preview'' @ extension)
   \<and> render name = Inr (page (name @ ''_preview'' @ extension) (pascal_case_name name))"
  using render_eq [of name]
  by (simp add: file_name_def preview_file_name_def file_path_def extension_def
      substitutions_def content_def)

section \<open>The scanner\<close>



lemma delim_not_id_char: "\<not> id_char (CHR ''$'')"
  by (simp add: id_char_def id_start_def ascii_lowercase_def ascii_uppercase_def digits_def)












section \<open>Rendering, read off the template text\<close>










section \<open>Rendering a template\<close>

lemma convert_Inr_expand:
  "convert m t = Inr s \<Longrightarrow> s = expand m t"
  by (cases t) (auto split: option.splits)







section \<open>Rendering fails exactly on an unbound placeholder\<close>



section \<open>The loop, step by step\<close>

lemma open_write_nul:
  "CHR 0x00 \<in> set p \<Longrightarrow> open_write r p s w = (Inl ValueError, w)"
  by (simp add: open_write_def)

lemma open_write_Written:
  "CHR 0x00 \<notin> set p \<Longrightarrow> open_write Written p s w = (Inr (), write_effect Written p s w)"
  by (simp add: open_write_def write_effect_def)

lemma open_write_not_Written:
  "CHR 0x00 \<notin> set p \<Longrightarrow> r \<noteq> Written \<Longrightarrow>
     open_write r p s w = (Inl OSError, write_effect r p s w)"
  by (cases r) (simp_all add: open_write_def write_effect_def)

lemma plain_name_no_nul: "plain_name n \<Longrightarrow> CHR 0x00 \<notin> set n"
  by (auto simp: plain_name_def list_all_iff)

lemma plain_name_is_ascii: "plain_name n \<Longrightarrow> c \<in> set n \<Longrightarrow> is_ascii c"
  by (auto simp: plain_name_def list_all_iff)

lemma plain_file_path:
  assumes "plain_name n"
  shows "CHR 0x00 \<notin> set (file_path n)"
proof -
  have "set (file_path n) \<subseteq> set TARGET_DIR \<union> set ''/'' \<union> set n \<union> set ''_page.dart''"
    by (auto simp: file_path_def os_path_join_def file_name_def)
  moreover have "CHR 0x00 \<notin> set TARGET_DIR"
    by code_simp
  moreover have "CHR 0x00 \<notin> set n"
    using assms by (rule plain_name_no_nul)
  ultimately show ?thesis by auto
qed

lemma plain_names_take: "list_all plain_name names \<Longrightarrow> list_all plain_name (take k names)"
  by (auto simp: list_all_iff dest: in_set_takeD)

lemma plain_names_nth: "list_all plain_name names \<Longrightarrow> k < length names \<Longrightarrow> plain_name (names ! k)"
  by (simp add: list_all_iff)

lemma fs_page_written [simp]:
  "fs (page_written name w) = (fs w)(file_path name \<mapsto> File (content name))"
  by (simp add: page_written_def print_def write_effect_def)

lemma stdout_page_written [simp]:
  "stdout (page_written name w) = stdout w @ created_line name"
  by (simp add: page_written_def print_def write_effect_def created_line_def)

lemma calls_page_written [simp]:
  "calls (page_written name w) = calls w @ [OpenWrite (file_path name) (content name)]"
  by (simp add: page_written_def print_def write_effect_def)

lemma write_pages_step_nul:
  assumes "CHR 0x00 \<in> set (file_path name)"
  shows "write_pages e i (name # rest) w = (Inl ValueError, w)"
  using assms by (simp add: render_eq open_write_nul)

lemma write_pages_step_Written:
  assumes "write_result e i = Written" and "plain_name name"
  shows "write_pages e i (name # rest) w = write_pages e (Suc i) rest (page_written name w)"
  using assms(1) open_write_Written [OF plain_file_path [OF assms(2)], of "content name" w]
  by (simp add: render_eq page_written_def)

lemma write_pages_step_failed:
  assumes "write_result e i \<noteq> Written" and "plain_name name"
  shows "write_pages e i (name # rest) w
           = (Inl OSError, page_failed (write_result e i) name w)"
  using open_write_not_Written [OF plain_file_path [OF assms(2)] assms(1), of "content name" w]
  by (simp add: render_eq page_failed_def)

lemma write_pages_all_written:
  "list_all plain_name names \<Longrightarrow> \<forall>j<length names. write_result e (i + j) = Written \<Longrightarrow>
     write_pages e i names w = (Inr (), fold page_written names w)"
proof (induction names arbitrary: i w)
  case Nil
  then show ?case by simp
next
  case (Cons name rest)
  from Cons.prems have "write_result e i = Written" by force
  moreover have "\<forall>j<length rest. write_result e (Suc i + j) = Written"
    using Cons.prems by force
  moreover from Cons.prems have "plain_name name" and "list_all plain_name rest" by simp_all
  ultimately show ?case
    using Cons.IH [of "Suc i" "page_written name w"]
    by (simp add: write_pages_step_Written del: write_pages.simps)
qed

lemma write_pages_first_failure:
  "list_all plain_name names \<Longrightarrow>
   k < length names \<Longrightarrow> \<forall>j<k. write_result e (i + j) = Written \<Longrightarrow>
   write_result e (i + k) \<noteq> Written \<Longrightarrow>
     write_pages e i names w
       = (Inl OSError,
          page_failed (write_result e (i + k)) (names ! k) (fold page_written (take k names) w))"
proof (induction names arbitrary: i k w)
  case Nil
  then show ?case by simp
next
  case (Cons name rest)
  from Cons.prems(1) have pn: "plain_name name" and pr: "list_all plain_name rest" by simp_all
  show ?case
  proof (cases k)
    case 0
    with Cons.prems pn show ?thesis
      by (simp add: write_pages_step_failed del: write_pages.simps)
  next
    case (Suc k')
    with Cons.prems have w: "write_result e i = Written" by force
    have "\<forall>j<k'. write_result e (Suc i + j) = Written"
      using Cons.prems(3) Suc by force
    moreover have "write_result e (Suc i + k') \<noteq> Written"
      using Cons.prems(4) Suc by simp
    moreover have "k' < length rest" using Cons.prems(2) Suc by simp
    ultimately show ?thesis
      using Cons.IH [of k' "Suc i" "page_written name w"] w Suc pn pr
      by (simp add: write_pages_step_Written del: write_pages.simps)
  qed
qed

lemma write_pages_cases:
  assumes "list_all plain_name names"
  obtains (ok) "\<forall>j<length names. write_result e (i + j) = Written"
      and "write_pages e i names w = (Inr (), fold page_written names w)"
  | (failed) k where "k < length names" and "\<forall>j<k. write_result e (i + j) = Written"
      and "write_result e (i + k) \<noteq> Written"
      and "write_pages e i names w
             = (Inl OSError,
                page_failed (write_result e (i + k)) (names ! k)
                  (fold page_written (take k names) w))"
proof (cases "\<forall>j<length names. write_result e (i + j) = Written")
  case True
  then show ?thesis using write_pages_all_written [OF assms, of e i w] ok by blast
next
  case False
  then have ex: "\<exists>j. j < length names \<and> write_result e (i + j) \<noteq> Written" by blast
  define k where "k = (LEAST j. j < length names \<and> write_result e (i + j) \<noteq> Written)"
  from ex have kk: "k < length names \<and> write_result e (i + k) \<noteq> Written"
    unfolding k_def by (rule LeastI_ex)
  have before: "\<forall>j<k. write_result e (i + j) = Written"
  proof (intro allI impI)
    fix j assume "j < k"
    then have "\<not> (j < length names \<and> write_result e (i + j) \<noteq> Written)"
      unfolding k_def by (rule not_less_Least)
    moreover from \<open>j < k\<close> kk have "j < length names" by simp
    ultimately show "write_result e (i + j) = Written" by simp
  qed
  with kk write_pages_first_failure [OF assms, of k e i w] failed show ?thesis by blast
qed

lemma write_pages_succeeds_iff:
  assumes "list_all plain_name names"
  shows "fst (write_pages e i names w) = Inr ()
           \<longleftrightarrow> (\<forall>j<length names. write_result e (i + j) = Written)"
  by (cases rule: write_pages_cases [OF assms, of e i w]) auto

section \<open>The world after the loop\<close>

lemma stdout_pages_written:
  "stdout (fold page_written names w) = stdout w @ concat (map created_line names)"
  by (induction names arbitrary: w) simp_all

lemma calls_pages_written:
  "calls (fold page_written names w)
     = calls w @ map (\<lambda>n. OpenWrite (file_path n) (content n)) names"
  by (induction names arbitrary: w) simp_all

lemma fs_pages_written_other:
  "p \<notin> file_path ` set names \<Longrightarrow> fs (fold page_written names w) p = fs w p"
  by (induction names arbitrary: w) simp_all

lemma file_name_not_absolute_iff:
  "(file_name n \<noteq> [] \<and> hd (file_name n) = CHR ''/'') \<longleftrightarrow> (n \<noteq> [] \<and> hd n = CHR ''/'')"
  by (cases n) (simp_all add: file_name_def)

lemma file_path_cases:
  "file_path n = (if n \<noteq> [] \<and> hd n = CHR ''/'' then file_name n
                  else TARGET_DIR @ ''/'' @ file_name n)"
  unfolding file_path_def os_path_join_def file_name_not_absolute_iff
  by (simp add: TARGET_DIR_eq)

lemma file_path_inj: "file_path a = file_path b \<Longrightarrow> a = b"
proof -
  assume eq: "file_path a = file_path b"
  have abs_hd: "hd (file_path n) = CHR ''/''" if "n \<noteq> [] \<and> hd n = CHR ''/''" for n
    using that by (cases n) (simp_all add: file_path_cases file_name_def)
  have rel_hd: "hd (file_path n) = CHR ''e''" if "\<not> (n \<noteq> [] \<and> hd n = CHR ''/'')" for n
    using that by (auto simp: file_path_cases TARGET_DIR_eq)
  show ?thesis
  proof (cases "a \<noteq> [] \<and> hd a = CHR ''/''")
    case True
    then have "hd (file_path b) = CHR ''/''" using abs_hd [of a] eq by simp
    then have b: "b \<noteq> [] \<and> hd b = CHR ''/''" using rel_hd [of b] by auto
    have pa: "file_path a = file_name a" by (subst file_path_cases) (rule if_P [OF True])
    have pb: "file_path b = file_name b" by (subst file_path_cases) (rule if_P [OF b])
    have "file_name a = file_name b" using eq unfolding pa pb .
    then show ?thesis unfolding file_name_def by (rule append_same_eq [THEN iffD1])
  next
    case False
    then have "hd (file_path b) = CHR ''e''" using rel_hd [of a] eq by simp
    then have b: "\<not> (b \<noteq> [] \<and> hd b = CHR ''/'')" using abs_hd [of b] by auto
    have pa: "file_path a = TARGET_DIR @ ''/'' @ file_name a"
      by (subst file_path_cases) (rule if_not_P [OF False])
    have pb: "file_path b = TARGET_DIR @ ''/'' @ file_name b"
      by (subst file_path_cases) (rule if_not_P [OF b])
    have "TARGET_DIR @ ''/'' @ file_name a = TARGET_DIR @ ''/'' @ file_name b"
      using eq unfolding pa pb .
    then have "file_name a = file_name b" by (simp only: same_append_eq)
    then show ?thesis unfolding file_name_def by (rule append_same_eq [THEN iffD1])
  qed
qed

lemma fs_pages_written_listed:
  "n \<in> set names \<Longrightarrow> fs (fold page_written names w) (file_path n) = Some (File (content n))"
proof (induction names arbitrary: w)
  case Nil
  then show ?case by simp
next
  case (Cons a names)
  show ?case
  proof (cases "n \<in> set names")
    case True
    then show ?thesis using Cons.IH by simp
  next
    case False
    with Cons.prems have "n = a" by simp
    moreover from False have "file_path n \<notin> file_path ` set names"
      using file_path_inj by blast
    ultimately show ?thesis
      by (simp add: fs_pages_written_other)
  qed
qed

section \<open>The directory\<close>

lemma ensure_target_dir_exists:
  "fs w TARGET_DIR \<noteq> None \<Longrightarrow> ensure_target_dir e w = (Inr (), w)"
  by (simp add: ensure_target_dir_def os_path_exists_def)

lemma ensure_target_dir_denied:
  "fs w TARGET_DIR = None \<Longrightarrow> \<not> makedirs_ok e \<Longrightarrow>
     ensure_target_dir e w = (Inl OSError, w\<lparr>calls := calls w @ [Makedirs TARGET_DIR]\<rparr>)"
  by (simp add: ensure_target_dir_def os_path_exists_def os_makedirs_def)

lemma ensure_target_dir_created:
  "fs w TARGET_DIR = None \<Longrightarrow> makedirs_ok e \<Longrightarrow>
     ensure_target_dir e w
       = (Inr (), w\<lparr>fs := fold mkdir_missing (dir_prefixes TARGET_DIR) (fs w),
                     stdout := stdout w @ ''Created directory: '' @ TARGET_DIR @ newline,
                     calls := calls w @ [Makedirs TARGET_DIR]\<rparr>)"
  by (simp add: ensure_target_dir_def os_path_exists_def os_makedirs_def print_def)

lemma ensure_target_dir_succeeds_iff:
  "fst (ensure_target_dir e w) = Inr () \<longleftrightarrow> fs w TARGET_DIR \<noteq> None \<or> makedirs_ok e"
  by (cases "fs w TARGET_DIR = None"; cases "makedirs_ok e")
     (simp_all add: ensure_target_dir_exists ensure_target_dir_denied ensure_target_dir_created)

lemma fold_mkdir_missing_kept:
  "f p \<noteq> None \<Longrightarrow> fold mkdir_missing ds f p = f p"
  by (induction ds arbitrary: f) (auto simp: mkdir_missing_def)

lemma fold_mkdir_missing_cases:
  "fold mkdir_missing ds f p = (if f p = None \<and> p \<in> set ds then Some Dir else f p)"
  by (induction ds arbitrary: f) (auto simp: mkdir_missing_def fold_mkdir_missing_kept)

section \<open>The whole run\<close>

lemma generate_files_unfold:
  "generate_files e names w =
     (if fst (ensure_target_dir e w) = Inr () then
        (if fst (write_pages e 0 names (print starting_message (dir_ready e w))) = Inr ()
         then (Inr (), print complete_message
                  (snd (write_pages e 0 names (print starting_message (dir_ready e w)))))
         else write_pages e 0 names (print starting_message (dir_ready e w)))
      else ensure_target_dir e w)"
  by (auto simp: generate_files_def dir_ready_def split: prod.splits sum.splits)

lemma generate_files_succeeds_iff:
  assumes "list_all plain_name names"
  shows "fst (generate_files e names w) = Inr ()
     \<longleftrightarrow> (fs w TARGET_DIR \<noteq> None \<or> makedirs_ok e)
         \<and> (\<forall>j<length names. write_result e j = Written)"
  using write_pages_succeeds_iff [OF assms, of e 0 "print starting_message (dir_ready e w)"]
    ensure_target_dir_succeeds_iff [of e w]
  by (auto simp: generate_files_unfold)

lemma generate_files_success:
  assumes "list_all plain_name names" and "fst (generate_files e names w) = Inr ()"
  shows "snd (generate_files e names w)
           = print complete_message
               (fold page_written names (print starting_message (dir_ready e w)))"
proof -
  from assms have d: "fst (ensure_target_dir e w) = Inr ()"
    and a: "\<forall>j<length names. write_result e (0 + j) = Written"
    by (simp_all add: generate_files_succeeds_iff ensure_target_dir_succeeds_iff)
  from assms(1) a have "write_pages e 0 names (print starting_message (dir_ready e w))
      = (Inr (), fold page_written names (print starting_message (dir_ready e w)))"
    by (rule write_pages_all_written)
  with d show ?thesis by (simp add: generate_files_unfold)
qed

section \<open>Frame facts\<close>

lemma fs_page_failed_other:
  "p \<noteq> file_path name \<Longrightarrow> fs (page_failed r name w) p = fs w p"
  by (cases r) (simp_all add: page_failed_def write_effect_def)

lemma fs_page_failed_OpenDenied: "fs (page_failed OpenDenied name w) = fs w"
  by (simp add: page_failed_def write_effect_def)

lemma calls_page_failed:
  "calls (page_failed r name w) = calls w @ [OpenWrite (file_path name) (content name)]"
  by (cases r) (simp_all add: page_failed_def write_effect_def)

lemma stdout_page_failed: "stdout (page_failed r name w) = stdout w"
  by (cases r) (simp_all add: page_failed_def write_effect_def)

lemma write_pages_frame:
  assumes "list_all plain_name names" and "p \<notin> file_path ` set names"
  shows "fs (snd (write_pages e i names w)) p = fs w p"
  using assms(1)
proof (cases rule: write_pages_cases [of names e i w])
  case ok
  with assms show ?thesis by (simp add: fs_pages_written_other)
next
  case (failed k)
  from failed(1) have "names ! k \<in> set names" by simp
  with assms have "p \<noteq> file_path (names ! k)" by blast
  moreover from assms have "p \<notin> file_path ` set (take k names)"
    using set_take_subset [of k names] by blast
  ultimately show ?thesis using failed(4)
    by (simp add: fs_page_failed_other fs_pages_written_other)
qed

lemma write_pages_no_makedirs:
  assumes "list_all plain_name names"
  shows "filter is_makedirs (calls (snd (write_pages e i names w)))
           = filter is_makedirs (calls w)"
  using assms
proof (cases rule: write_pages_cases [of names e i w])
  case ok
  then show ?thesis by (simp add: calls_pages_written filter_map o_def is_makedirs_def)
next
  case (failed k)
  then show ?thesis
    by (simp add: calls_page_failed calls_pages_written filter_map o_def is_makedirs_def)
qed

lemma TARGET_DIR_not_a_page: "TARGET_DIR \<notin> file_path ` set names"
proof
  assume "TARGET_DIR \<in> file_path ` set names"
  then obtain n where "TARGET_DIR = file_path n" by blast
  then have n: "file_path n = TARGET_DIR" by (rule sym)
  show False
  proof (cases "n \<noteq> [] \<and> hd n = CHR ''/''")
    case True
    have "file_path n = file_name n" by (subst file_path_cases) (rule if_P [OF True])
    with n have "hd (file_name n) = hd TARGET_DIR" by simp
    with True show False by (cases n) (simp_all add: file_name_def TARGET_DIR_eq)
  next
    case False
    have "file_path n = TARGET_DIR @ ''/'' @ file_name n"
      by (subst file_path_cases) (rule if_not_P [OF False])
    with n have "length (TARGET_DIR @ ''/'' @ file_name n) = length TARGET_DIR" by simp
    then show False by simp
  qed
qed

lemma print_fields [simp]:
  "fs (print s w) = fs w" "calls (print s w) = calls w"
  "stdout (print s w) = stdout w @ s @ newline"
  by (simp_all add: print_def)

lemma dir_ready_exists: "fs w TARGET_DIR \<noteq> None \<Longrightarrow> dir_ready e w = w"
  by (simp add: dir_ready_def ensure_target_dir_exists)

lemma stdout_dir_ready:
  "fst (ensure_target_dir e w) = Inr () \<Longrightarrow>
     stdout (dir_ready e w)
       = stdout w @ (if fs w TARGET_DIR = None
                     then ''Created directory: '' @ TARGET_DIR @ newline else [])"
  by (cases "fs w TARGET_DIR = None"; cases "makedirs_ok e")
     (simp_all add: dir_ready_def ensure_target_dir_exists ensure_target_dir_denied
        ensure_target_dir_created)

section \<open>Successful runs\<close>

lemma plain_COMPONENTS: "list_all plain_name COMPONENTS"
  by (simp add: COMPONENTS_def plain_name_def is_ascii_def)

lemma all_ok_succeeds:
  "list_all plain_name names \<Longrightarrow> fst (generate_files all_ok names w) = Inr ()"
  by (simp add: generate_files_succeeds_iff all_ok_def)

lemma all_ok_succeeds_COMPONENTS: "fst (generate_files all_ok COMPONENTS w) = Inr ()"
  using plain_COMPONENTS by (rule all_ok_succeeds)

lemma fs_after_success:
  assumes "list_all plain_name names" and "fst (generate_files e names w) = Inr ()"
  shows "fs (snd (generate_files e names w))
           = fs (fold page_written names (print starting_message (dir_ready e w)))"
  using generate_files_success [OF assms] by simp



text \<open>
  Claim C1. The content rendered for a name depends on the name alone. Take any two runs
  of the generator over the same list of names (of ASCII characters other than NUL),
  from any two worlds and under any two environments (in particular a second run right
  after the first): if both complete, every generated file holds the same bytes after
  both, namely the page rendered for its name.
\<close>

theorem rendering_deterministic:
  assumes "list_all plain_name names"
    and "fst (generate_files e1 names w1) = Inr ()"
    and "fst (generate_files e2 names w2) = Inr ()"
    and "n \<in> set names"
  shows "render n = Inr (content n)
     \<and> fs (snd (generate_files e1 names w1)) (file_path n) = Some (File (content n))
     \<and> fs (snd (generate_files e2 names w2)) (file_path n)
         = fs (snd (generate_files e1 names w1)) (file_path n)"
  using assms by (simp add: fs_after_success fs_pages_written_listed render_eq)

text \<open>Two runs in succession over \<open>COMPONENTS\<close>, starting from the empty world.\<close>

theorem rendering_deterministic_witness:
  "list_all plain_name COMPONENTS
   \<and> fst (generate_files all_ok COMPONENTS empty_world) = Inr ()
   \<and> fst (generate_files all_ok COMPONENTS
            (snd (generate_files all_ok COMPONENTS empty_world))) = Inr ()
   \<and> ''toggle'' \<in> set COMPONENTS
   \<and> fs (snd (generate_files all_ok COMPONENTS
                (snd (generate_files all_ok COMPONENTS empty_world)))) (file_path ''toggle'')
       = fs (snd (generate_files all_ok COMPONENTS empty_world)) (file_path ''toggle'')"
proof -
  have m: "''toggle'' \<in> set COMPONENTS" by (simp add: COMPONENTS_def)
  show ?thesis
    using rendering_deterministic [of COMPONENTS all_ok empty_world all_ok
        "snd (generate_files all_ok COMPONENTS empty_world)" "''toggle''"]
      all_ok_succeeds_COMPONENTS plain_COMPONENTS m
    by simp
qed



section \<open>The page of one component\<close>

lemma content_badge:
  "content ''badge'' = unlines
     [''import 'package:jaspr/jaspr.dart';'',
      ''import '../preview/badge_preview.dart';'',
      [],
      ''/// The page that showcases the `Badge` component.'',
      ''///'',
      ''/// This is a simple wrapper component that renders the `BadgePreview`,'',
      ''/// which contains all the interactive examples and code snippets.'',
      ''class BadgePage extends StatelessComponent {'',
      ''  const BadgePage({super.key});'',
      [],
      ''  @override'',
      ''  Iterable<Component> build(BuildContext context) sync* {'',
      ''    yield BadgePreview();'',
      ''  }'',
      ''}'']"
  by code_simp

lemma lines_of_content_badge:
  "lines_of (content ''badge'') ! 1 = ''import '../preview/badge_preview.dart';''
   \<and> lines_of (content ''badge'') ! 7 = ''class BadgePage extends StatelessComponent {''"
  by code_simp

lemma plain_badge: "list_all plain_name [''badge'']"
  by (simp add: plain_name_def is_ascii_def)

lemma file_path_badge:
  "file_path ''badge'' = ''examples/deepyr_example/lib/pages/component_routes/badge_page.dart''"
  by code_simp

text \<open>
  Claim C5. For the name list \<open>["badge"]\<close>, after a run that completes, the file
  \<open>badge_page.dart\<close> exists in the target directory; the class-declaration line of its
  content (the eighth line) contains the identifier \<open>BadgePage\<close>, and its import line
  (the second line) refers to \<open>badge_preview\<close> with the extension.
\<close>

theorem badge_page_generated:
  assumes "fst (generate_files e [''badge''] w) = Inr ()"
  shows "fs (snd (generate_files e [''badge''] w))
           ''examples/deepyr_example/lib/pages/component_routes/badge_page.dart''
           = Some (File (content ''badge''))
     \<and> lines_of (content ''badge'') ! 7 = ''class '' @ ''BadgePage'' @ '' extends StatelessComponent {''
     \<and> sublist ''BadgePage'' (lines_of (content ''badge'') ! 7)
     \<and> lines_of (content ''badge'') ! 1
         = ''import '../preview/'' @ ''badge_preview'' @ extension @ [CHR 0x27] @ '';''
     \<and> sublist (''badge_preview'' @ extension) (lines_of (content ''badge'') ! 1)"
proof -
  have "fs (snd (generate_files e [''badge''] w)) (file_path ''badge'')
          = Some (File (content ''badge''))"
    using assms plain_badge by (simp add: fs_after_success)
  then have a: "fs (snd (generate_files e [''badge''] w))
      ''examples/deepyr_example/lib/pages/component_routes/badge_page.dart''
        = Some (File (content ''badge''))"
    by (simp only: file_path_badge)
  have l7: "lines_of (content ''badge'') ! 7
      = ''class '' @ ''BadgePage'' @ '' extends StatelessComponent {''"
    using lines_of_content_badge by simp
  have l1: "lines_of (content ''badge'') ! 1
      = ''import '../preview/'' @ ''badge_preview'' @ extension @ [CHR 0x27] @ '';''"
    using lines_of_content_badge by (simp add: extension_def)
  have s7: "sublist ''BadgePage'' (lines_of (content ''badge'') ! 7)"
    unfolding l7 by (rule sublist_appendI)
  have "sublist (''badge_preview'' @ extension)
      (''import '../preview/'' @ (''badge_preview'' @ extension) @ [CHR 0x27] @ '';'')"
    by (rule sublist_appendI)
  then have s1: "sublist (''badge_preview'' @ extension) (lines_of (content ''badge'') ! 1)"
    unfolding l1 by simp
  from a l7 l1 s7 s1 show ?thesis by blast
qed

theorem badge_page_generated_witness:
  "fst (generate_files all_ok [''badge''] empty_world) = Inr ()
   \<and> fs (snd (generate_files all_ok [''badge''] empty_world))
        ''examples/deepyr_example/lib/pages/component_routes/badge_page.dart''
        = Some (File (content ''badge''))
   \<and> sublist ''BadgePage'' (lines_of (content ''badge'') ! 7)
   \<and> sublist (''badge_preview'' @ extension) (lines_of (content ''badge'') ! 1)"
  using badge_page_generated [of all_ok empty_world]
    all_ok_succeeds [OF plain_badge, of empty_world]
  by blast

end
